theory Spec2Isabelle
  imports Main
begin

section \<open>JavaScript strings\<close>

text \<open>
  A JavaScript string is a sequence of UTF-16 code units. The model uses \<^typ>\<open>string\<close>,
  whose characters are the code units below 256 (Latin-1); the white space and line
  terminator code units above that range (U+1680, U+2000..U+200A, U+2028, U+2029, U+202F,
  U+205F, U+3000, U+FEFF) are outside the model.
\<close>

definition isWhiteSpace :: "char \<Rightarrow> bool" where
  \<comment> \<open>the regular expression class \<open>\s\<close>, which is also what \<open>String.prototype.trim\<close> strips:
      TAB, LF, VT, FF, CR, SP, NBSP\<close>
  "isWhiteSpace c \<longleftrightarrow>
     c = CHR 0x09 \<or> c = CHR 0x0A \<or> c = CHR 0x0B \<or> c = CHR 0x0C \<or> c = CHR 0x0D \<or>
     c = CHR 0x20 \<or> c = CHR 0xA0"

definition trim :: "string \<Rightarrow> string" where
  \<comment> \<open>\<open>String.prototype.trim\<close>\<close>
  "trim s = rev (dropWhile isWhiteSpace (rev (dropWhile isWhiteSpace s)))"

fun split :: "char \<Rightarrow> string \<Rightarrow> string list" where
  \<comment> \<open>\<open>s.split(c)\<close> for a separator of one code unit; the empty string splits into \<open>['']\<close>\<close>
  "split c [] = [[]]"
| "split c (x # xs) =
     (if x = c then [] # split c xs
      else (case split c xs of [] \<Rightarrow> [[x]] | y # ys \<Rightarrow> (x # y) # ys))"

fun join :: "char \<Rightarrow> string list \<Rightarrow> string" where
  \<comment> \<open>\<open>parts.join(c)\<close>\<close>
  "join c [] = []"
| "join c [p] = p"
| "join c (p # q # ps) = p @ c # join c (q # ps)"

fun replace_escaped_newlines :: "string \<Rightarrow> string" where
  \<comment> \<open>\<open>s.replace(/\\n/g, '\n')\<close>: every backslash followed by \<open>n\<close>, left to right and
      without overlap, becomes one line feed\<close>
  "replace_escaped_newlines (a # b # s) =
     (if a = CHR 0x5C \<and> b = CHR ''n'' then CHR 0x0A # replace_escaped_newlines s
      else a # replace_escaped_newlines (b # s))"
| "replace_escaped_newlines s = s"


section \<open>Environment variables (deployStack.ts)\<close>

record EnvVariable =
  name :: string
  "value" :: string

type_synonym EnvVariables = "EnvVariable list"

definition parseLine :: "string \<Rightarrow> EnvVariable" where
  \<comment> \<open>the arrow function mapped over the lines: \<open>const [name, ...rest] = line.split('=')\<close>,
      \<open>value = rest.join('=').trim()\<close>\<close>
  "parseLine line =
     (case split CHR ''='' line of
        [] \<Rightarrow> \<lparr>name = [], value = []\<rparr>
      | n # rest \<Rightarrow> \<lparr>name = trim n, value = trim (join CHR ''='' rest)\<rparr>)"

definition parseEnvVariables :: "string \<Rightarrow> EnvVariables" where
  "parseEnvVariables envVariables =
     (let normalizedEnvVariables = trim (replace_escaped_newlines envVariables)
      in map parseLine
           (filter (\<lambda>line. trim line \<noteq> []) (split CHR 0x0A normalizedEnvVariables)))"

text \<open>
  A JavaScript \<open>Map\<close> iterates in insertion order, and \<open>set\<close> on a key that is already
  present replaces the value where the key stands. The model is an association list with
  distinct keys.
\<close>

fun Map_set :: "(string \<times> string) list \<Rightarrow> string \<Rightarrow> string \<Rightarrow> (string \<times> string) list" where
  "Map_set [] k v = [(k, v)]"
| "Map_set ((k', v') # m) k v =
     (if k' = k then (k', v) # m else (k', v') # Map_set m k v)"

definition set_all :: "(string \<times> string) list \<Rightarrow> EnvVariables \<Rightarrow> (string \<times> string) list" where
  \<comment> \<open>\<open>for (const variable of vs) mergedMap.set(variable.name, variable.value)\<close>\<close>
  "set_all m vs = foldl (\<lambda>mergedMap variable. Map_set mergedMap (name variable) (value variable)) m vs"

definition mergeEnvVariables :: "EnvVariables \<Rightarrow> EnvVariables \<Rightarrow> EnvVariables" where
  "mergeEnvVariables original updates =
     (let mergedMap = set_all [] original;
          mergedMap = set_all mergedMap updates
      in map (\<lambda>(n, v). \<lparr>name = n, value = v\<rparr>) mergedMap)"

subsection \<open>The contract of the merge, in the specification's words\<close>

fun first_occurrences :: "string list \<Rightarrow> string list" where
  \<comment> \<open>every name once, at the place where it occurs first\<close>
  "first_occurrences [] = []"
| "first_occurrences (x # xs) = x # first_occurrences (filter (\<lambda>y. y \<noteq> x) xs)"

definition last_value :: "EnvVariables \<Rightarrow> string \<Rightarrow> string" where
  \<comment> \<open>the value of the last variable called \<open>n\<close>; only used for names that occur\<close>
  "last_value vs n = value (last (filter (\<lambda>variable. name variable = n) vs))"


section \<open>The image rewrite (deployStack.ts, lines 89 to 95)\<close>

fun indexOf :: "string \<Rightarrow> char \<Rightarrow> int" where
  \<comment> \<open>\<open>s.indexOf(c)\<close>: the index of the first \<open>c\<close>, and \<open>-1\<close> when there is none\<close>
  "indexOf [] c = - 1"
| "indexOf (x # xs) c =
     (if x = c then 0 else (let i = indexOf xs c in if i < 0 then - 1 else i + 1))"

definition substring :: "string \<Rightarrow> int \<Rightarrow> int \<Rightarrow> string" where
  \<comment> \<open>\<open>s.substring(start, end)\<close>: both indices are clamped to \<open>0..length\<close>, and swapped when
      the first is the greater\<close>
  "substring s start end' =
     (let len = int (length s);
          finalStart = min (max start 0) len;
          finalEnd = min (max end' 0) len;
          from = min finalStart finalEnd;
          to = max finalStart finalEnd
      in take (nat (to - from)) (drop (nat from) s))"

definition imageWithoutTag :: "string \<Rightarrow> string" where
  \<comment> \<open>line 89\<close>
  "imageWithoutTag image' = substring image' 0 (indexOf image' CHR '':'')"

definition isSyntaxCharacter :: "char \<Rightarrow> bool" where
  \<comment> \<open>the class \<open>[.*+?^${}()|[\]\\]\<close> of line 91\<close>
  "isSyntaxCharacter c \<longleftrightarrow>
     c = CHR ''.'' \<or> c = CHR ''*'' \<or> c = CHR ''+'' \<or> c = CHR ''?'' \<or> c = CHR ''^'' \<or>
     c = CHR ''$'' \<or> c = CHR ''{'' \<or> c = CHR ''}'' \<or> c = CHR ''('' \<or> c = CHR '')'' \<or>
     c = CHR ''|'' \<or> c = CHR ''['' \<or> c = CHR '']'' \<or> c = CHR 0x5C"

definition escapeSyntaxCharacters :: "string \<Rightarrow> string" where
  \<comment> \<open>line 91, \<open>.replace(/[.*+?^${}()|[\]\\]/g, '\\$&')\<close>: a backslash before every syntax
      character\<close>
  "escapeSyntaxCharacters s =
     concat (map (\<lambda>c. if isSyntaxCharacter c then [CHR 0x5C, c] else [c]) s)"

subsection \<open>The regular expression\<close>

datatype cls =
    WhiteSpace    \<comment> \<open>\<open>\s\<close>\<close>
  | Quote         \<comment> \<open>\<open>['"]\<close>\<close>
  | NotQuote      \<comment> \<open>\<open>[^'"]\<close>, which line terminators belong to\<close>

fun in_cls :: "cls \<Rightarrow> char \<Rightarrow> bool" where
  "in_cls WhiteSpace c = isWhiteSpace c"
| "in_cls Quote c = (c = CHR 0x27 \<or> c = CHR 0x22)"
| "in_cls NotQuote c = (\<not> (c = CHR 0x27 \<or> c = CHR 0x22))"

datatype rx =
    LineStart           \<comment> \<open>\<open>^\<close> under the flag \<open>m\<close>\<close>
  | Lit string          \<comment> \<open>a run of characters that match themselves\<close>
  | Atom cls            \<comment> \<open>one character of a class\<close>
  | Star cls            \<comment> \<open>a class under the greedy \<open>*\<close>\<close>
  | Opt rx              \<comment> \<open>the greedy \<open>?\<close>\<close>
  | Cat rx rx           \<comment> \<open>one pattern after the other\<close>
  | Group nat rx        \<comment> \<open>the capturing group of that number\<close>

fun pattern_characters :: "string \<Rightarrow> string" where
  \<comment> \<open>the characters that a pattern text of ordinary characters and of escaped syntax
      characters matches: \<open>\c\<close> matches \<open>c\<close>\<close>
  "pattern_characters (a # b # s) =
     (if a = CHR 0x5C then b # pattern_characters s else a # pattern_characters (b # s))"
| "pattern_characters s = s"

definition image_regex :: "string \<Rightarrow> rx" where
  \<comment> \<open>line 92, \<open>^(\s*image:\s*['"]?)${imageWithoutTagEscaped}(:[^'"]*)?(['"]?)\<close>\<close>
  "image_regex imageWithoutTagEscaped =
     Cat LineStart
      (Cat (Group 1 (Cat (Star WhiteSpace) (Cat (Lit ''image:'')
                      (Cat (Star WhiteSpace) (Opt (Atom Quote))))))
      (Cat (Lit (pattern_characters imageWithoutTagEscaped))
      (Cat (Opt (Group 2 (Cat (Lit '':'') (Star NotQuote))))
           (Group 3 (Opt (Atom Quote))))))"

fun ngroups :: "rx \<Rightarrow> nat" where
  "ngroups (Opt r) = ngroups r"
| "ngroups (Cat r1 r2) = ngroups r1 + ngroups r2"
| "ngroups (Group n r) = Suc (ngroups r)"
| "ngroups r = 0"

text \<open>
  A position of the matcher: the input before it (reversed, so that its head is the
  character just before the position), the input from it on, and the captures so far.
\<close>

type_synonym mstate = "string \<times> string \<times> (nat \<times> string) list"

definition isLineTerminator :: "char \<Rightarrow> bool" where
  "isLineTerminator c \<longleftrightarrow> c = CHR 0x0A \<or> c = CHR 0x0D"

fun star :: "cls \<Rightarrow> mstate \<Rightarrow> mstate list" where
  \<comment> \<open>the greedy star: the longest run first, then each shorter one\<close>
  "star k (behind, [], caps) = [(behind, [], caps)]"
| "star k (behind, x # xs, caps) =
     (if in_cls k x then star k (x # behind, xs, caps) else []) @ [(behind, x # xs, caps)]"

fun isPrefix :: "string \<Rightarrow> string \<Rightarrow> bool" where
  "isPrefix [] ys = True"
| "isPrefix (x # xs) [] = False"
| "isPrefix (x # xs) (y # ys) = (x = y \<and> isPrefix xs ys)"

fun matches :: "rx \<Rightarrow> mstate \<Rightarrow> mstate list" where
  \<comment> \<open>the ways in which the pattern matches at a position, in the order in which the
      backtracking matcher of ECMAScript tries them; the first is the match\<close>
  "matches LineStart (behind, rest, caps) =
     (case behind of
        [] \<Rightarrow> [(behind, rest, caps)]
      | c # _ \<Rightarrow> (if isLineTerminator c then [(behind, rest, caps)] else []))"
| "matches (Lit l) (behind, rest, caps) =
     (if isPrefix l rest then [(rev l @ behind, drop (length l) rest, caps)] else [])"
| "matches (Atom k) (behind, rest, caps) =
     (case rest of
        [] \<Rightarrow> []
      | x # xs \<Rightarrow> (if in_cls k x then [(x # behind, xs, caps)] else []))"
| "matches (Star k) s = star k s"
| "matches (Opt r) s = matches r s @ [s]"
| "matches (Cat r1 r2) s = concat (map (matches r2) (matches r1 s))"
| "matches (Group n r) (behind, rest, caps) =
     map (\<lambda>(behind', rest', caps').
            (behind', rest', (n, take (length rest - length rest') rest) # caps'))
         (matches r (behind, rest, caps))"

subsection \<open>The replacement\<close>

definition isDigit :: "char \<Rightarrow> bool" where
  "isDigit c \<longleftrightarrow> of_char CHR ''0'' \<le> (of_char c :: nat) \<and> (of_char c :: nat) \<le> of_char CHR ''9''"

definition digit :: "char \<Rightarrow> nat" where
  "digit c = of_char c - of_char CHR ''0''"

definition capture :: "(nat \<times> string) list \<Rightarrow> nat \<Rightarrow> string" where
  \<comment> \<open>a group that took no part in the match is replaced by the empty string\<close>
  "capture caps n = (case map_of caps n of None \<Rightarrow> [] | Some c \<Rightarrow> c)"

fun GetSubstitution ::
  "string \<Rightarrow> string \<Rightarrow> string \<Rightarrow> (nat \<times> string) list \<Rightarrow> nat \<Rightarrow> string \<Rightarrow> string" where
  \<comment> \<open>ECMAScript's GetSubstitution for a pattern without named groups: \<open>matched\<close> is the
      match, \<open>preceding\<close> and \<open>following\<close> the input around it, \<open>m\<close> the number of groups\<close>
  "GetSubstitution matched preceding following caps m [] = []"
| "GetSubstitution matched preceding following caps m [c] = [c]"
| "GetSubstitution matched preceding following caps m (c # d # t) =
     (if c \<noteq> CHR ''$'' then c # GetSubstitution matched preceding following caps m (d # t)
      else if d = CHR ''$'' then CHR ''$'' # GetSubstitution matched preceding following caps m t
      else if d = CHR ''&'' then matched @ GetSubstitution matched preceding following caps m t
      else if d = CHR 0x60 then preceding @ GetSubstitution matched preceding following caps m t
      else if d = CHR 0x27 then following @ GetSubstitution matched preceding following caps m t
      else if isDigit d then
        (case t of
           [] \<Rightarrow>
             (if 1 \<le> digit d \<and> digit d \<le> m then capture caps (digit d) else [c, d])
         | e # t' \<Rightarrow>
             (if isDigit e \<and> 10 * digit d + digit e \<le> m
              then (if 1 \<le> 10 * digit d + digit e
                    then capture caps (10 * digit d + digit e)
                    else [c, d, e])
                   @ GetSubstitution matched preceding following caps m t'
              else (if 1 \<le> digit d \<and> digit d \<le> m then capture caps (digit d) else [c, d])
                   @ GetSubstitution matched preceding following caps m (e # t')))
      else c # GetSubstitution matched preceding following caps m (d # t))"

function replace_from :: "rx \<Rightarrow> string \<Rightarrow> string \<Rightarrow> string \<Rightarrow> string" where
  \<comment> \<open>\<open>String.prototype.replace\<close> with a pattern under the flag \<open>g\<close>, from the position with
      \<open>behind\<close> (reversed) before it and \<open>rest\<close> ahead: the leftmost match is replaced and
      the search goes on where it ended, one character further on when it was empty\<close>
  "replace_from re replaceValue behind rest =
     (case matches re (behind, rest, []) of
        [] \<Rightarrow>
          (case rest of
             [] \<Rightarrow> []
           | x # xs \<Rightarrow> x # replace_from re replaceValue (x # behind) xs)
      | (_, rest', caps) # _ \<Rightarrow>
          (let n = length rest - length rest';
               matched = take n rest
           in GetSubstitution matched (rev behind) (drop n rest) caps (ngroups re) replaceValue @
              (if n = 0
               then (case rest of
                       [] \<Rightarrow> []
                     | x # xs \<Rightarrow> x # replace_from re replaceValue (x # behind) xs)
               else replace_from re replaceValue (rev matched @ behind) (drop n rest))))"
  by pat_completeness auto
termination
  by (relation "measure (\<lambda>(re, replaceValue, behind, rest). length rest)") auto

definition replace :: "string \<Rightarrow> rx \<Rightarrow> string \<Rightarrow> string" where
  "replace s re replaceValue = replace_from re replaceValue [] s"

definition rewrite_image :: "string \<Rightarrow> string \<Rightarrow> string" where
  \<comment> \<open>lines 89 to 95 of \<open>generateNewStackDefinition\<close>\<close>
  "rewrite_image stackDefinition image' =
     (let imageWithoutTagEscaped = escapeSyntaxCharacters (imageWithoutTag image');
          regex = image_regex imageWithoutTagEscaped
      in replace stackDefinition regex (''$1'' @ image' @ ''$3''))"


section \<open>The Portainer API (api.ts)\<close>

text \<open>
  The numbers of the program are modelled as far as it uses them: the integers, and
  \<open>NaN\<close>, which \<open>parseInt\<close> returns for a text without digits. An integer stands for the
  Number nearest to it, which is that integer itself while its magnitude is at most
  \<open>2^53\<close>.
\<close>

datatype Number = NaN | Integer int

definition strict_equals :: "Number \<Rightarrow> Number \<Rightarrow> bool" where
  \<comment> \<open>\<open>a === b\<close> on numbers: \<open>NaN\<close> equals nothing\<close>
  "strict_equals a b \<longleftrightarrow> a \<noteq> NaN \<and> a = b"

datatype error =
    Error string          \<comment> \<open>\<open>new Error(message)\<close>, and what the file system and the template
                              engine throw\<close>
  | AxiosError string     \<comment> \<open>a request that failed\<close>

record StackData =
  Id' :: int
  Name :: string
  EndpointId :: Number
  Env :: "EnvVariables option"

record CreateStackParams =
  create_type :: nat
  create_method :: string
  create_endpointId :: Number

record CreateStackBody =
  create_name :: string
  create_stackFileContent :: string
  create_swarmID :: "string option"
  create_Env :: "EnvVariables option"

record UpdateStackParams =
  update_endpointId :: Number

record UpdateStackBody =
  update_env :: "EnvVariables option"
  update_stackFileContent :: "string option"
  update_prune :: bool
  update_pullImage :: bool

datatype call =
    Login string string
  | Logout
  | GetStacks
  | CreateStack CreateStackParams CreateStackBody
  | UpdateStack int UpdateStackParams UpdateStackBody

text \<open>
  What lies outside the program answers through a record of functions: the file system,
  the template engine and the Portainer instance. Each of them may throw.
\<close>

record 'tv world =
  stackDefFilePath :: "string \<Rightarrow> error + string"
    \<comment> \<open>\<open>path.join(process.env.GITHUB_WORKSPACE, stackDefinitionFile)\<close>\<close>
  readFileSync :: "string \<Rightarrow> error + string"
  Handlebars_compile :: "string \<Rightarrow> 'tv \<Rightarrow> error + string"
  post_auth :: "string \<Rightarrow> string \<Rightarrow> error + string"
    \<comment> \<open>\<open>POST /auth\<close>, which answers with the token\<close>
  get_stacks :: "error + StackData list"
  post_stacks_create :: "CreateStackParams \<Rightarrow> CreateStackBody \<Rightarrow> error + unit"
  put_stacks :: "int \<Rightarrow> UpdateStackParams \<Rightarrow> UpdateStackBody \<Rightarrow> error + unit"

text \<open>
  The state of a \<open>PortainerApi\<close> object: the base URL and the authorization header of
  its client, and the methods called on it so far, in order.
\<close>

record PortainerApi =
  baseURL :: string
  Authorization :: "string option"
  calls :: "call list"

definition new_PortainerApi :: "string \<Rightarrow> PortainerApi" where
  "new_PortainerApi host = \<lparr>baseURL = host @ ''/api'', Authorization = None, calls = []\<rparr>"

definition login :: "'tv world \<Rightarrow> string \<Rightarrow> string \<Rightarrow> PortainerApi \<Rightarrow> (error + unit) \<times> PortainerApi" where
  "login w user pass api =
     (let api = api\<lparr>calls := calls api @ [Login user pass]\<rparr>
      in case post_auth w user pass of
           Inl e \<Rightarrow> (Inl e, api)
         | Inr jwt \<Rightarrow> (Inr (), api\<lparr>Authorization := Some (''Bearer '' @ jwt)\<rparr>))"

definition logout :: "PortainerApi \<Rightarrow> (error + unit) \<times> PortainerApi" where
  \<comment> \<open>the request to \<open>/auth/logout\<close> is commented out in the source: only the header is
      cleared\<close>
  "logout api = (Inr (), api\<lparr>Authorization := Some [], calls := calls api @ [Logout]\<rparr>)"

definition getStacks :: "'tv world \<Rightarrow> PortainerApi \<Rightarrow> (error + StackData list) \<times> PortainerApi" where
  "getStacks w api = (get_stacks w, api\<lparr>calls := calls api @ [GetStacks]\<rparr>)"

definition createStack ::
  "'tv world \<Rightarrow> CreateStackParams \<Rightarrow> CreateStackBody \<Rightarrow> PortainerApi \<Rightarrow> (error + unit) \<times> PortainerApi" where
  "createStack w params body api =
     (post_stacks_create w params body, api\<lparr>calls := calls api @ [CreateStack params body]\<rparr>)"

definition updateStack ::
  "'tv world \<Rightarrow> int \<Rightarrow> UpdateStackParams \<Rightarrow> UpdateStackBody \<Rightarrow> PortainerApi \<Rightarrow> (error + unit) \<times> PortainerApi" where
  "updateStack w id' params body api =
     (put_stacks w id' params body, api\<lparr>calls := calls api @ [UpdateStack id' params body]\<rparr>)"


section \<open>The deployment (deployStack.ts)\<close>

record 'tv DeployStack =
  portainerHost :: string
  username :: string
  password :: string
  swarmId :: "string option"
  endpointId :: Number
  stackName :: string
  stackDefinitionFile :: "string option"
  templateVariables :: "'tv option"
  envVariables :: "EnvVariables option"
  image' :: "string option"
  pruneStack :: "bool option"
  pullImage :: "bool option"

datatype StackType = SWARM | COMPOSE

fun StackType_value :: "StackType \<Rightarrow> nat" where
  "StackType_value SWARM = 1"
| "StackType_value COMPOSE = 2"

definition truthy :: "string option \<Rightarrow> bool" where
  \<comment> \<open>an optional string in a condition: \<open>undefined\<close> and the empty string are false\<close>
  "truthy s = (case s of None \<Rightarrow> False | Some x \<Rightarrow> x \<noteq> [])"

definition generateNewStackDefinition ::
  "'tv world \<Rightarrow> string option \<Rightarrow> 'tv option \<Rightarrow> string option \<Rightarrow> error + string option" where
  "generateNewStackDefinition w stackDefinitionFile' templateVariables' image'' =
     (case stackDefinitionFile' of
        None \<Rightarrow> Inr None
      | Some file \<Rightarrow>
          if file = [] then Inr None
          else
            (case stackDefFilePath w file of
               Inl e \<Rightarrow> Inl e
             | Inr path \<Rightarrow>
                 (case readFileSync w path of
                    Inl e \<Rightarrow> Inl e
                  | Inr stackDefinition \<Rightarrow>
                      if stackDefinition = []
                      then Inl (Error (''Could not find stack-definition file: '' @ path))
                      else
                        (case (case templateVariables' of
                                 None \<Rightarrow> Inr stackDefinition
                               | Some vars \<Rightarrow> Handlebars_compile w stackDefinition vars) of
                           Inl e \<Rightarrow> Inl e
                         | Inr stackDefinition \<Rightarrow>
                             (case image'' of
                                None \<Rightarrow> Inr (Some stackDefinition)
                              | Some img \<Rightarrow>
                                  if img = [] then Inr (Some stackDefinition)
                                  else Inr (Some (rewrite_image stackDefinition img)))))))"

definition isTarget :: "'tv DeployStack \<Rightarrow> StackData \<Rightarrow> bool" where
  \<comment> \<open>the predicate given to \<open>allStacks.find\<close>, lines 129 to 131\<close>
  "isTarget args s \<longleftrightarrow> Name s = stackName args \<and> strict_equals (EndpointId s) (endpointId args)"

definition reconcile ::
  "'tv world \<Rightarrow> 'tv DeployStack \<Rightarrow> string option \<Rightarrow> PortainerApi \<Rightarrow> (error + unit) \<times> PortainerApi" where
  \<comment> \<open>the \<open>try\<close> block of \<open>deployStack\<close>, lines 128 to 182; its \<open>catch\<close> throws the error
      again\<close>
  "reconcile w args stackDefinitionToDeploy api =
     (case getStacks w api of
        (Inl e, api) \<Rightarrow> (Inl e, api)
      | (Inr allStacks, api) \<Rightarrow>
          (case find (isTarget args) allStacks of
             Some existingStack \<Rightarrow>
               (let existingStack_Env =
                      (case envVariables args of
                         Some vars \<Rightarrow>
                           Some (mergeEnvVariables
                                   (case Env existingStack of None \<Rightarrow> [] | Some env \<Rightarrow> env) vars)
                       | None \<Rightarrow> Env existingStack)
                in updateStack w (Id' existingStack)
                     \<lparr>update_endpointId = EndpointId existingStack\<rparr>
                     \<lparr>update_env = existingStack_Env,
                      update_stackFileContent = stackDefinitionToDeploy,
                      update_prune = (case pruneStack args of None \<Rightarrow> False | Some b \<Rightarrow> b),
                      update_pullImage = (case pullImage args of None \<Rightarrow> False | Some b \<Rightarrow> b)\<rparr>
                     api)
           | None \<Rightarrow>
               (case stackDefinitionToDeploy of
                  None \<Rightarrow>
                    (Inl (Error (''Stack with name '' @ stackName args @
                       '' does not exist and no stack definition file was provided.'')), api)
                | Some definition' \<Rightarrow>
                    if definition' = []
                    then (Inl (Error (''Stack with name '' @ stackName args @
                            '' does not exist and no stack definition file was provided.'')), api)
                    else createStack w
                           \<lparr>create_type =
                              (if truthy (swarmId args) then StackType_value SWARM
                               else StackType_value COMPOSE),
                            create_method = ''string'',
                            create_endpointId = endpointId args\<rparr>
                           \<lparr>create_name = stackName args,
                            create_stackFileContent = definition',
                            create_swarmID =
                              (if truthy (swarmId args) then swarmId args else None),
                            create_Env = envVariables args\<rparr>
                           api)))"

definition deployStack :: "'tv world \<Rightarrow> 'tv DeployStack \<Rightarrow> (error + unit) \<times> PortainerApi" where
  "deployStack w args =
     (let portainerApi = new_PortainerApi (portainerHost args)
      in case generateNewStackDefinition w (stackDefinitionFile args) (templateVariables args)
                (image' args) of
           Inl e \<Rightarrow> (Inl e, portainerApi)
         | Inr stackDefinitionToDeploy \<Rightarrow>
             (case login w (username args) (password args) portainerApi of
                (Inl e, api) \<Rightarrow> (Inl e, api)
              | (Inr _, api) \<Rightarrow>
                  (case reconcile w args stackDefinitionToDeploy api of
                     (outcome, api) \<Rightarrow>
                       \<comment> \<open>\<open>finally\<close>: an error of the clean-up would replace the outcome\<close>
                       (case logout api of
                          (Inl e, api) \<Rightarrow> (Inl e, api)
                        | (Inr _, api) \<Rightarrow> (outcome, api)))))"


section \<open>The entry point (the file of \<open>run\<close>)\<close>

definition digitValue :: "char \<Rightarrow> nat" where
  \<comment> \<open>the value of a digit or letter as a digit of some radix; 36 for any other character\<close>
  "digitValue c =
     (let n = (of_char c :: nat)
      in if of_char CHR ''0'' \<le> n \<and> n \<le> of_char CHR ''9'' then n - of_char CHR ''0''
         else if of_char CHR ''a'' \<le> n \<and> n \<le> of_char CHR ''z'' then n - of_char CHR ''a'' + 10
         else if of_char CHR ''A'' \<le> n \<and> n \<le> of_char CHR ''Z'' then n - of_char CHR ''A'' + 10
         else 36)"

definition parseInt :: "string \<Rightarrow> Number" where
  \<comment> \<open>ECMAScript's \<open>parseInt(string)\<close> with no radix: leading white space, a sign, \<open>0x\<close> for
      radix 16, then the longest run of digits; \<open>NaN\<close> when that run is empty\<close>
  "parseInt string =
     (let S = dropWhile isWhiteSpace string;
          sign = (case S of [] \<Rightarrow> 1 | c # _ \<Rightarrow> if c = CHR ''-'' then - 1 else (1::int));
          S = (case S of [] \<Rightarrow> S | c # t \<Rightarrow> if c = CHR ''+'' \<or> c = CHR ''-'' then t else S);
          hex = (case S of
                   a # b # _ \<Rightarrow> a = CHR ''0'' \<and> (b = CHR ''x'' \<or> b = CHR ''X'')
                 | _ \<Rightarrow> False);
          R = (if hex then 16 else (10::nat));
          S = (if hex then drop 2 S else S);
          Z = takeWhile (\<lambda>c. digitValue c < R) S
      in if Z = [] then NaN
         else Integer (sign * int (foldl (\<lambda>n c. n * R + digitValue c) 0 Z)))"

definition ToBoolean :: "Number \<Rightarrow> bool" where
  "ToBoolean n \<longleftrightarrow> n \<noteq> NaN \<and> n \<noteq> Integer 0"

definition logical_or :: "Number \<Rightarrow> Number \<Rightarrow> Number" where
  \<comment> \<open>\<open>a || b\<close>\<close>
  "logical_or a b = (if ToBoolean a then a else b)"

record Inputs =
  input_portainer_host :: string
  input_username :: string
  input_password :: string
  input_swarm_id :: string
  input_endpoint_id :: string
  input_stack_name :: string
  input_stack_definition :: string
  input_template_variables :: string
  input_env_variables :: string
  input_image :: string
  input_prune_stack :: bool
  input_pull_image :: bool

definition run_arguments :: "(string \<Rightarrow> error + 'tv) \<Rightarrow> Inputs \<Rightarrow> error + 'tv DeployStack" where
  \<comment> \<open>the argument of \<open>deployStack\<close> in \<open>run\<close>, from the inputs that \<open>core.getInput\<close> and
      \<open>core.getBooleanInput\<close> have read (an input that is not set reads as the empty
      string); \<open>JSON_parse\<close> may throw\<close>
  "run_arguments JSON_parse inputs =
     (case (if input_template_variables inputs \<noteq> []
            then map_sum id Some (JSON_parse (input_template_variables inputs))
            else Inr None) of
        Inl e \<Rightarrow> Inl e
      | Inr vars \<Rightarrow>
          Inr \<lparr>portainerHost = input_portainer_host inputs,
               username = input_username inputs,
               password = input_password inputs,
               swarmId = Some (input_swarm_id inputs),
               endpointId = logical_or (parseInt (input_endpoint_id inputs)) (Integer 1),
               stackName = input_stack_name inputs,
               stackDefinitionFile = Some (input_stack_definition inputs),
               templateVariables = vars,
               envVariables =
                 (if input_env_variables inputs \<noteq> []
                  then Some (parseEnvVariables (input_env_variables inputs))
                  else None),
               image' = Some (input_image inputs),
               pruneStack = Some (input_prune_stack inputs \<or> False),
               pullImage = Some (input_pull_image inputs \<or> False)\<rparr>)"

definition run :: "(string \<Rightarrow> error + 'tv) \<Rightarrow> 'tv world \<Rightarrow> Inputs \<Rightarrow> (error + unit) \<times> call list" where
  \<comment> \<open>\<open>run\<close>: the outcome is what is reported (\<open>core.setFailed\<close> for an error), with the calls
      that reached the API\<close>
  "run JSON_parse w inputs =
     (case run_arguments JSON_parse inputs of
        Inl e \<Rightarrow> (Inl e, [])
      | Inr args \<Rightarrow> (case deployStack w args of (outcome, api) \<Rightarrow> (outcome, calls api)))"


section \<open>A concrete run\<close>

definition example_stack :: "string \<Rightarrow> int \<Rightarrow> int \<Rightarrow> StackData" where
  "example_stack n i e =
     \<lparr>Id' = i, Name = n, EndpointId = Integer e, Env = Some [\<lparr>name = ''A'', value = ''1''\<rparr>]\<rparr>"

definition example_world :: "StackData list \<Rightarrow> error + unit \<Rightarrow> unit world" where
  \<comment> \<open>an instance that knows the given stacks and answers an update as given\<close>
  "example_world stacks updated =
     \<lparr>stackDefFilePath = (\<lambda>file. Inr (''/github/workspace/'' @ file)),
      readFileSync = (\<lambda>path. Inr ''image: myrepo/app:old''),
      Handlebars_compile = (\<lambda>template vars. Inr template),
      post_auth = (\<lambda>user pass. Inr ''jwt''),
      get_stacks = Inr stacks,
      post_stacks_create = (\<lambda>params body. Inr ()),
      put_stacks = (\<lambda>id' params body. updated)\<rparr>"

definition example_args :: "string option \<Rightarrow> unit DeployStack" where
  "example_args file =
     \<lparr>portainerHost = ''https://portainer.example'',
      username = ''ci'',
      password = ''secret'',
      swarmId = Some [],
      endpointId = Integer 2,
      stackName = ''web'',
      stackDefinitionFile = file,
      templateVariables = None,
      envVariables = Some [\<lparr>name = ''B'', value = ''2''\<rparr>],
      image' = Some ''myrepo/app:new'',
      pruneStack = None,
      pullImage = Some True\<rparr>"

definition example_JSON_parse :: "string \<Rightarrow> error + unit" where
  "example_JSON_parse s = Inr ()"

definition example_inputs :: "string \<Rightarrow> Inputs" where
  "example_inputs endpoint =
     \<lparr>input_portainer_host = ''https://portainer.example'',
      input_username = ''ci'',
      input_password = ''secret'',
      input_swarm_id = [],
      input_endpoint_id = endpoint,
      input_stack_name = ''web'',
      input_stack_definition = ''stack.yml'',
      input_template_variables = [],
      input_env_variables = ''B=2'',
      input_image = ''myrepo/app:new'',
      input_prune_stack = False,
      input_pull_image = True\<rparr>"


section \<open>Parsing\<close>

lemma split_not_Nil: "split c s \<noteq> []"
  by (induction s) (auto split: list.splits)

lemma split_takeWhile:
  "split c s =
     takeWhile (\<lambda>x. x \<noteq> c) s #
       (if c \<in> set s then split c (tl (dropWhile (\<lambda>x. x \<noteq> c) s)) else [])"
proof (induction s)
  case Nil
  show ?case by simp
next
  case (Cons x s)
  show ?case
  proof (cases "x = c")
    case True
    then show ?thesis by simp
  next
    case False
    obtain y ys where ys: "split c s = y # ys"
      using split_not_Nil [of c s] by (cases "split c s") auto
    with False Cons show ?thesis by (auto split: if_splits)
  qed
qed

lemma join_split: "join c (split c s) = s"
proof (induction s)
  case Nil
  show ?case by simp
next
  case (Cons x s)
  obtain y ys where ys: "split c s = y # ys"
    using split_not_Nil [of c s] by (cases "split c s") auto
  show ?case
  proof (cases "x = c")
    case True
    with Cons ys show ?thesis by simp
  next
    case False
    with Cons ys show ?thesis by (cases ys) auto
  qed
qed

lemma parseLine_eq:
  "parseLine line =
     (if CHR ''='' \<in> set line
      then \<lparr>name = trim (takeWhile (\<lambda>x. x \<noteq> CHR ''='') line),
            value = trim (tl (dropWhile (\<lambda>x. x \<noteq> CHR ''='') line))\<rparr>
      else \<lparr>name = trim line, value = []\<rparr>)"
proof (cases "CHR ''='' \<in> set line")
  case True
  then show ?thesis
    unfolding parseLine_def
    by (subst split_takeWhile) (simp add: join_split)
next
  case False
  then have whole: "takeWhile (\<lambda>x. x \<noteq> CHR ''='') line = line"
    by (induction line) auto
  from False show ?thesis
    unfolding parseLine_def
    by (subst split_takeWhile) (simp add: whole trim_def)
qed

text \<open>
  Claim C7. \<open>parseEnvVariables\<close> turns the escaped line breaks into line feeds, trims the
  text, cuts it at the line feeds and drops the lines that are blank after trimming. Each
  line that is left becomes one variable, in the order of the lines and without removing
  duplicates: a line without \<open>=\<close> gives the trimmed line as name and the empty value; a
  line with \<open>=\<close> gives the trimmed text before the first \<open>=\<close> as name and the trimmed
  text after it, further \<open>=\<close> included, as value. No input raises an error.
\<close>

theorem parseEnvVariables_lines:
  "parseEnvVariables input =
     map (\<lambda>line.
            if CHR ''='' \<in> set line
            then \<lparr>name = trim (takeWhile (\<lambda>c. c \<noteq> CHR ''='') line),
                  value = trim (tl (dropWhile (\<lambda>c. c \<noteq> CHR ''='') line))\<rparr>
            else \<lparr>name = trim line, value = []\<rparr>)
       (filter (\<lambda>line. trim line \<noteq> [])
          (split CHR 0x0A (trim (replace_escaped_newlines input))))"
  unfolding parseEnvVariables_def Let_def
  by (rule map_cong [OF refl]) (simp only: parseLine_eq)

theorem parseEnvVariables_lines_witness:
  "parseEnvVariables (''A=1'' @ [CHR 0x5C, CHR ''n''] @ '' B = x=y '' @ [CHR 0x0A, CHR 0x0A] @
       ''  NOVALUE  '' @ [CHR 0x0A] @ ''A=2'') =
     [\<lparr>name = ''A'', value = ''1''\<rparr>, \<lparr>name = ''B'', value = ''x=y''\<rparr>,
      \<lparr>name = ''NOVALUE'', value = []\<rparr>, \<lparr>name = ''A'', value = ''2''\<rparr>]"
  unfolding parseEnvVariables_lines by code_simp


section \<open>Merging\<close>

lemma Map_set_present:
  "k \<in> set (map fst m) \<Longrightarrow> map fst (Map_set m k v) = map fst m"
  by (induction m) force+

lemma Map_set_absent:
  "k \<notin> set (map fst m) \<Longrightarrow> Map_set m k v = m @ [(k, v)]"
  by (induction m) auto

lemma keys_Map_set:
  "map fst (Map_set m k v) = (if k \<in> set (map fst m) then map fst m else map fst m @ [k])"
  using Map_set_present [of k m v] Map_set_absent [of k m v] by simp

lemma map_of_Map_set: "map_of (Map_set m k v) = (map_of m)(k \<mapsto> v)"
  by (induction m) (auto simp: fun_eq_iff)

lemma set_first_occurrences: "set (first_occurrences xs) = set xs"
  by (induction xs rule: first_occurrences.induct) auto

lemma keys_set_all:
  "map fst (set_all m vs) =
     map fst m @ first_occurrences (filter (\<lambda>n. n \<notin> set (map fst m)) (map name vs))"
proof (induction vs arbitrary: m)
  case Nil
  show ?case by (simp add: set_all_def)
next
  case (Cons e vs)
  have step: "set_all m (e # vs) = set_all (Map_set m (name e) (value e)) vs"
    by (simp add: set_all_def)
  show ?case
  proof (cases "name e \<in> set (map fst m)")
    case True
    then show ?thesis
      unfolding step Cons.IH by (simp add: keys_Map_set)
  next
    case False
    have "filter (\<lambda>n. n \<notin> set (map fst m) \<and> n \<noteq> name e) (map name vs)
            = filter (\<lambda>y. y \<noteq> name e) (filter (\<lambda>n. n \<notin> set (map fst m)) (map name vs))"
      by (simp add: conj_commute)
    with False show ?thesis
      unfolding step Cons.IH by (simp add: keys_Map_set conj_commute)
  qed
qed

lemma last_value_Cons:
  "last_value (e # vs) n =
     (if n \<in> set (map name vs) then last_value vs n else if name e = n then value e
      else last_value vs n)"
proof -
  have "n \<in> set (map name vs) \<longleftrightarrow> filter (\<lambda>variable. name variable = n) vs \<noteq> []"
    by (auto simp: filter_empty_conv)
  then show ?thesis by (auto simp: last_value_def)
qed

lemma map_of_set_all:
  "map_of (set_all m vs) n =
     (if n \<in> set (map name vs) then Some (last_value vs n) else map_of m n)"
proof (induction vs arbitrary: m)
  case Nil
  show ?case by (simp add: set_all_def)
next
  case (Cons e vs)
  have step: "set_all m (e # vs) = set_all (Map_set m (name e) (value e)) vs"
    by (simp add: set_all_def)
  show ?case
    unfolding step Cons.IH by (auto simp: map_of_Map_set last_value_Cons)
qed

lemma distinct_first_occurrences: "distinct (first_occurrences xs)"
  by (induction xs rule: first_occurrences.induct)
     (auto simp: set_first_occurrences)

lemma distinct_keys_set_all:
  "distinct (map fst m) \<Longrightarrow> distinct (map fst (set_all m vs))"
  by (auto simp: keys_set_all distinct_first_occurrences set_first_occurrences)

lemma alist_by_keys:
  "distinct (map fst m) \<Longrightarrow>
     map (\<lambda>(k, v). f k v) m = map (\<lambda>k. f k (case map_of m k of None \<Rightarrow> d | Some v \<Rightarrow> v)) (map fst m)"
proof (induction m)
  case Nil
  show ?case by simp
next
  case (Cons p m)
  obtain k v where p: "p = (k, v)" by (cases p)
  from Cons.prems p have k: "k \<notin> set (map fst m)" and d: "distinct (map fst m)" by auto
  have "map (\<lambda>k'. f k' (case map_of ((k, v) # m) k' of None \<Rightarrow> d | Some v \<Rightarrow> v)) (map fst m)
        = map (\<lambda>k'. f k' (case map_of m k' of None \<Rightarrow> d | Some v \<Rightarrow> v)) (map fst m)"
    using k by (auto simp: map_eq_conv)
  with Cons.IH [OF d] p show ?case by simp
qed

lemma set_all_distinct:
  "distinct (map fst m @ map name vs) \<Longrightarrow>
     set_all m vs = m @ map (\<lambda>variable. (name variable, value variable)) vs"
proof (induction vs arbitrary: m)
  case Nil
  show ?case by (simp add: set_all_def)
next
  case (Cons e vs)
  have step: "set_all m (e # vs) = set_all (Map_set m (name e) (value e)) vs"
    by (simp add: set_all_def)
  from Cons.prems have new: "name e \<notin> set (map fst m)" by auto
  note app = Map_set_absent
  from Cons.prems new have "distinct (map fst (Map_set m (name e) (value e)) @ map name vs)"
    by (auto simp: app)
  from Cons.IH [OF this] new show ?case
    unfolding step by (simp add: app)
qed

text \<open>
  Claim C3. The merged sequence lists the names of \<open>original\<close>, each once and at the place
  of its first occurrence in \<open>original\<close>, and after them the names that occur in
  \<open>updates\<close> only, each once and in the order of \<open>updates\<close>. A name that occurs in
  \<open>updates\<close> carries the value of its last occurrence there; any other name carries
  the value of its last occurrence in \<open>original\<close>.
\<close>

theorem mergeEnvVariables_contract:
  "mergeEnvVariables original updates =
     map (\<lambda>n. \<lparr>name = n,
               value = (if n \<in> set (map name updates) then last_value updates n
                        else last_value original n)\<rparr>)
       (first_occurrences (map name original) @
        first_occurrences (filter (\<lambda>n. n \<notin> set (map name original)) (map name updates)))"
proof -
  let ?m = "set_all (set_all [] original) updates"
  have d: "distinct (map fst ?m)"
    by (intro distinct_keys_set_all) simp
  have keys: "map fst ?m =
      first_occurrences (map name original) @
      first_occurrences (filter (\<lambda>n. n \<notin> set (map name original)) (map name updates))"
    by (simp add: keys_set_all set_first_occurrences)
  have val: "\<And>n. n \<in> set (map fst ?m) \<Longrightarrow>
      (case map_of ?m n of None \<Rightarrow> [] | Some v \<Rightarrow> v) =
        (if n \<in> set (map name updates) then last_value updates n else last_value original n)"
    by (auto simp: map_of_set_all keys set_first_occurrences)
  have "mergeEnvVariables original updates = map (\<lambda>(n, v). \<lparr>name = n, value = v\<rparr>) ?m"
    by (simp add: mergeEnvVariables_def)
  also have "\<dots> = map (\<lambda>n. \<lparr>name = n, value = (case map_of ?m n of None \<Rightarrow> [] | Some v \<Rightarrow> v)\<rparr>)
                     (map fst ?m)"
    by (rule alist_by_keys [OF d])
  also have "\<dots> = map (\<lambda>n. \<lparr>name = n,
               value = (if n \<in> set (map name updates) then last_value updates n
                        else last_value original n)\<rparr>) (map fst ?m)"
  proof (rule map_cong [OF refl])
    fix n
    assume "n \<in> set (map fst ?m)"
    from val [OF this]
    show "\<lparr>name = n, value = (case map_of ?m n of None \<Rightarrow> [] | Some v \<Rightarrow> v)\<rparr> =
          \<lparr>name = n, value = (if n \<in> set (map name updates) then last_value updates n
                                else last_value original n)\<rparr>"
      by simp
  qed
  finally show ?thesis by (simp only: keys)
qed

theorem mergeEnvVariables_contract_witness:
  "mergeEnvVariables
     [\<lparr>name = ''A'', value = ''1''\<rparr>, \<lparr>name = ''B'', value = ''2''\<rparr>]
     [\<lparr>name = ''B'', value = ''3''\<rparr>, \<lparr>name = ''C'', value = ''4''\<rparr>, \<lparr>name = ''B'', value = ''5''\<rparr>] =
     [\<lparr>name = ''A'', value = ''1''\<rparr>, \<lparr>name = ''B'', value = ''5''\<rparr>, \<lparr>name = ''C'', value = ''4''\<rparr>]"
  unfolding mergeEnvVariables_contract by (simp add: last_value_def)

text \<open>
  Claim C8, as amended. For every sequence \<open>original\<close> whose names are pairwise distinct,
  merging it with no updates returns \<open>original\<close> unchanged, in values and in order. (A
  name that occurs twice in \<open>original\<close> is kept once, with its last value.)
\<close>

theorem mergeEnvVariables_empty_updates:
  "distinct (map name original) \<Longrightarrow> mergeEnvVariables original [] = original"
proof -
  assume "distinct (map name original)"
  then have "set_all [] original = map (\<lambda>variable. (name variable, value variable)) original"
    using set_all_distinct [of "[]" original] by simp
  moreover have "map (\<lambda>x. \<lparr>name = name x, value = value x\<rparr>) original = original"
    by (induction original) auto
  ultimately show ?thesis
    by (simp add: mergeEnvVariables_def set_all_def comp_def)
qed

theorem mergeEnvVariables_empty_updates_witness:
  "distinct (map name [\<lparr>name = ''A'', value = ''1''\<rparr>, \<lparr>name = ''B'', value = ''2''\<rparr>]) \<and>
   mergeEnvVariables [\<lparr>name = ''A'', value = ''1''\<rparr>, \<lparr>name = ''B'', value = ''2''\<rparr>] [] =
     [\<lparr>name = ''A'', value = ''1''\<rparr>, \<lparr>name = ''B'', value = ''2''\<rparr>]"
proof -
  have d: "distinct (map name [\<lparr>name = ''A'', value = ''1''\<rparr>, \<lparr>name = ''B'', value = ''2''\<rparr>])"
    by simp
  from d mergeEnvVariables_empty_updates [OF d] show ?thesis by simp
qed

theorem mergeEnvVariables_empty_updates_counterexample:
  "mergeEnvVariables [\<lparr>name = ''A'', value = ''1''\<rparr>, \<lparr>name = ''A'', value = ''2''\<rparr>] [] =
     [\<lparr>name = ''A'', value = ''2''\<rparr>]
   \<and> mergeEnvVariables [\<lparr>name = ''A'', value = ''1''\<rparr>, \<lparr>name = ''A'', value = ''2''\<rparr>] [] \<noteq>
     [\<lparr>name = ''A'', value = ''1''\<rparr>, \<lparr>name = ''A'', value = ''2''\<rparr>]"
  by (simp add: mergeEnvVariables_def set_all_def)


section \<open>The image rewrite\<close>

text \<open>
  Claim C5. The claim is that the repository-only text is the part of the image reference
  before its first colon, and the whole reference when there is no colon. For the
  reference without a tag that the description of the input \<open>image\<close> gives as its
  example, the code computes the empty text: \<open>indexOf\<close> answers \<open>-1\<close>, which \<open>substring\<close>
  clamps to \<open>0\<close>.
\<close>

theorem imageWithoutTag_without_colon:
  "imageWithoutTag ''docker.pkg.github.com/username/repo/master'' = []
   \<and> imageWithoutTag ''myrepo/app:new'' = ''myrepo/app''"
  by code_simp

text \<open>
  Claim C4. The claim is that rewriting twice with the same image gives what rewriting
  once gives. The pattern ends with the repository and two optional groups, so it also
  matches where the repository is the beginning of a longer name: in a document that
  declares \<open>myrepo/app-worker:old\<close>, rewriting with \<open>myrepo/app:new\<close> puts the new
  reference in front of \<open>-worker:old\<close>, and rewriting again takes \<open>:new-worker:old\<close> for
  the old tag and removes it.
\<close>

theorem rewrite_image_twice:
  "rewrite_image ''image: myrepo/app-worker:old'' ''myrepo/app:new'' =
     ''image: myrepo/app:new-worker:old''
   \<and> rewrite_image (rewrite_image ''image: myrepo/app-worker:old'' ''myrepo/app:new'')
       ''myrepo/app:new'' = ''image: myrepo/app:new''"
  by code_simp

text \<open>
  Claim C10. When the image is the empty string, \<open>generateNewStackDefinition\<close> returns the
  rendered document as it is (the text of the definition file, after the template engine
  when template variables are given), which is also what it returns when no image is
  given.
\<close>

theorem generateNewStackDefinition_empty_image:
  assumes given: "file \<noteq> []"
    and path: "stackDefFilePath w file = Inr path"
    and read: "readFileSync w path = Inr stackDefinition"
    and nonempty: "stackDefinition \<noteq> []"
    and rendered: "(case vars of None \<Rightarrow> Inr stackDefinition
                    | Some v \<Rightarrow> Handlebars_compile w stackDefinition v) = Inr rendered"
  shows "generateNewStackDefinition w (Some file) vars (Some []) = Inr (Some rendered)
         \<and> generateNewStackDefinition w (Some file) vars (Some []) =
             generateNewStackDefinition w (Some file) vars None"
  using assms by (simp add: generateNewStackDefinition_def)

theorem generateNewStackDefinition_empty_image_witness:
  "generateNewStackDefinition (example_world [] (Inr ())) (Some ''stack.yml'') None (Some []) =
     Inr (Some ''image: myrepo/app:old'')"
proof -
  let ?w = "example_world [] (Inr ())"
  have 1: "''stack.yml'' \<noteq> []" by simp
  have 2: "stackDefFilePath ?w ''stack.yml'' = Inr ''/github/workspace/stack.yml''"
    by (simp add: example_world_def)
  have 3: "readFileSync ?w ''/github/workspace/stack.yml'' = Inr ''image: myrepo/app:old''"
    by (simp add: example_world_def)
  have 4: "''image: myrepo/app:old'' \<noteq> []" by simp
  have 5: "(case None of None \<Rightarrow> Inr ''image: myrepo/app:old''
            | Some v \<Rightarrow> Handlebars_compile ?w ''image: myrepo/app:old'' v) =
           Inr ''image: myrepo/app:old''"
    by simp
  from generateNewStackDefinition_empty_image [OF 1 2 3 4 5] show ?thesis by simp
qed


section \<open>The deployment\<close>

lemma find_first:
  "\<forall>s \<in> set earlier. \<not> P s \<Longrightarrow> P x \<Longrightarrow> find P (earlier @ x # later) = Some x"
  by (induction earlier) auto

lemma find_none: "\<forall>s \<in> set xs. \<not> P s \<Longrightarrow> find P xs = None"
  by (induction xs) auto

lemma no_file_no_definition:
  "\<not> truthy file \<Longrightarrow> generateNewStackDefinition w file vars img = Inr None"
  by (auto simp: truthy_def generateNewStackDefinition_def split: option.splits)

lemma reconcile_calls:
  "\<exists>cs. calls (snd (reconcile w args d api)) = calls api @ cs \<and> Logout \<notin> set cs"
  by (auto simp: reconcile_def getStacks_def updateStack_def createStack_def Let_def
      split: sum.splits option.splits prod.splits)

lemma example_definition:
  "generateNewStackDefinition (example_world stacks updated) (Some ''stack.yml'') None
     (Some ''myrepo/app:new'') = Inr (Some ''image: myrepo/app:new'')"
proof -
  have "rewrite_image ''image: myrepo/app:old'' ''myrepo/app:new'' = ''image: myrepo/app:new''"
    by code_simp
  then show ?thesis
    by (simp add: generateNewStackDefinition_def example_world_def)
qed

text \<open>
  Claim C1. Let the definition be generated, the login succeed and the instance answer
  with a list of stacks in which \<open>existingStack\<close> is the first whose name is the stack
  name and whose endpoint is (in the sense of \<open>===\<close>) the endpoint id. Then the calls of
  the run are the login, the listing, one update of that stack and the logout: no stack
  is created, whether a definition was generated or not.
\<close>

theorem deployStack_updates_existing:
  assumes gen: "generateNewStackDefinition w (stackDefinitionFile args) (templateVariables args)
                  (image' args) = Inr stackDefinitionToDeploy"
    and auth: "post_auth w (username args) (password args) = Inr jwt"
    and stacks: "get_stacks w = Inr (earlier @ existingStack # later)"
    and earlier: "\<forall>s \<in> set earlier.
                    \<not> (Name s = stackName args \<and> strict_equals (EndpointId s) (endpointId args))"
    and target: "Name existingStack = stackName args"
                "strict_equals (EndpointId existingStack) (endpointId args)"
  shows "calls (snd (deployStack w args)) =
           [Login (username args) (password args),
            GetStacks,
            UpdateStack (Id' existingStack)
              \<lparr>update_endpointId = EndpointId existingStack\<rparr>
              \<lparr>update_env =
                 (case envVariables args of
                    Some vars \<Rightarrow>
                      Some (mergeEnvVariables
                              (case Env existingStack of None \<Rightarrow> [] | Some env \<Rightarrow> env) vars)
                  | None \<Rightarrow> Env existingStack),
               update_stackFileContent = stackDefinitionToDeploy,
               update_prune = (case pruneStack args of None \<Rightarrow> False | Some b \<Rightarrow> b),
               update_pullImage = (case pullImage args of None \<Rightarrow> False | Some b \<Rightarrow> b)\<rparr>,
            Logout]
         \<and> (\<forall>params body. CreateStack params body \<notin> set (calls (snd (deployStack w args))))"
proof -
  have found: "find (isTarget args) (earlier @ existingStack # later) = Some existingStack"
    using earlier target by (intro find_first) (simp_all add: isTarget_def)
  have "calls (snd (deployStack w args)) =
           [Login (username args) (password args),
            GetStacks,
            UpdateStack (Id' existingStack)
              \<lparr>update_endpointId = EndpointId existingStack\<rparr>
              \<lparr>update_env =
                 (case envVariables args of
                    Some vars \<Rightarrow>
                      Some (mergeEnvVariables
                              (case Env existingStack of None \<Rightarrow> [] | Some env \<Rightarrow> env) vars)
                  | None \<Rightarrow> Env existingStack),
               update_stackFileContent = stackDefinitionToDeploy,
               update_prune = (case pruneStack args of None \<Rightarrow> False | Some b \<Rightarrow> b),
               update_pullImage = (case pullImage args of None \<Rightarrow> False | Some b \<Rightarrow> b)\<rparr>,
            Logout]"
    by (simp add: deployStack_def gen login_def auth reconcile_def getStacks_def stacks found
        updateStack_def logout_def new_PortainerApi_def Let_def split: prod.splits)
  then show ?thesis by simp
qed

theorem deployStack_updates_existing_witness:
  "calls (snd (deployStack
      (example_world [example_stack ''web'' 1 1, example_stack ''web'' 7 2, example_stack ''web'' 8 2]
         (Inr ()))
      (example_args (Some ''stack.yml'')))) =
     [Login ''ci'' ''secret'',
      GetStacks,
      UpdateStack 7 \<lparr>update_endpointId = Integer 2\<rparr>
        \<lparr>update_env = Some [\<lparr>name = ''A'', value = ''1''\<rparr>, \<lparr>name = ''B'', value = ''2''\<rparr>],
         update_stackFileContent = Some ''image: myrepo/app:new'',
         update_prune = False,
         update_pullImage = True\<rparr>,
      Logout]"
proof -
  let ?w = "example_world
      [example_stack ''web'' 1 1, example_stack ''web'' 7 2, example_stack ''web'' 8 2] (Inr ())"
  let ?args = "example_args (Some ''stack.yml'')"
  have gen: "generateNewStackDefinition ?w (stackDefinitionFile ?args) (templateVariables ?args)
      (image' ?args) = Inr (Some ''image: myrepo/app:new'')"
    by (simp add: example_args_def example_definition)
  have auth: "post_auth ?w (username ?args) (password ?args) = Inr ''jwt''"
    by (simp add: example_world_def)
  have stacks: "get_stacks ?w =
      Inr ([example_stack ''web'' 1 1] @ example_stack ''web'' 7 2 # [example_stack ''web'' 8 2])"
    by (simp add: example_world_def)
  have earlier: "\<forall>s \<in> set [example_stack ''web'' 1 1].
      \<not> (Name s = stackName ?args \<and> strict_equals (EndpointId s) (endpointId ?args))"
    by (simp add: example_stack_def example_args_def strict_equals_def)
  have target: "Name (example_stack ''web'' 7 2) = stackName ?args"
    "strict_equals (EndpointId (example_stack ''web'' 7 2)) (endpointId ?args)"
    by (simp_all add: example_stack_def example_args_def strict_equals_def)
  from deployStack_updates_existing [OF gen auth stacks earlier target]
  show ?thesis
    by (simp add: example_stack_def example_args_def mergeEnvVariables_def set_all_def)
qed

text \<open>
  Claim C2. Let the login succeed and the instance answer with a list in which no stack
  has the stack name and the endpoint id, and let no definition have been generated (none
  at all, as when no definition file is given, or an empty one). Then the run fails with
  the error that the stack does not exist and no definition file was provided, and its
  calls are the login, the listing and the logout: no stack is created.
\<close>

theorem deployStack_no_definition:
  assumes gen: "generateNewStackDefinition w (stackDefinitionFile args) (templateVariables args)
                  (image' args) = Inr stackDefinitionToDeploy"
    and falsy: "\<not> truthy stackDefinitionToDeploy"
    and auth: "post_auth w (username args) (password args) = Inr jwt"
    and stacks: "get_stacks w = Inr allStacks"
    and none: "\<forall>s \<in> set allStacks.
                 \<not> (Name s = stackName args \<and> strict_equals (EndpointId s) (endpointId args))"
  shows "fst (deployStack w args) =
           Inl (Error (''Stack with name '' @ stackName args @
                  '' does not exist and no stack definition file was provided.''))
         \<and> calls (snd (deployStack w args)) =
             [Login (username args) (password args), GetStacks, Logout]
         \<and> (\<forall>params body. CreateStack params body \<notin> set (calls (snd (deployStack w args))))"
proof -
  have missing: "find (isTarget args) allStacks = None"
    using none by (intro find_none) (simp add: isTarget_def)
  from falsy have "stackDefinitionToDeploy = None \<or> stackDefinitionToDeploy = Some []"
    unfolding truthy_def by (simp split: option.splits)
  then have "deployStack w args =
      (Inl (Error (''Stack with name '' @ stackName args @
                  '' does not exist and no stack definition file was provided.'')),
       \<lparr>baseURL = portainerHost args @ ''/api'', Authorization = Some [],
        calls = [Login (username args) (password args), GetStacks, Logout]\<rparr>)"
    by (auto simp: deployStack_def gen login_def auth reconcile_def getStacks_def stacks missing
        logout_def new_PortainerApi_def Let_def)
  then show ?thesis by simp
qed

theorem deployStack_no_definition_witness:
  "fst (deployStack (example_world [example_stack ''web'' 1 1, example_stack ''db'' 3 2] (Inr ()))
     (example_args None)) =
     Inl (Error ''Stack with name web does not exist and no stack definition file was provided.'')
   \<and> calls (snd (deployStack
        (example_world [example_stack ''web'' 1 1, example_stack ''db'' 3 2] (Inr ()))
        (example_args None))) = [Login ''ci'' ''secret'', GetStacks, Logout]"
proof -
  let ?w = "example_world [example_stack ''web'' 1 1, example_stack ''db'' 3 2] (Inr ())"
  let ?args = "example_args None"
  have gen: "generateNewStackDefinition ?w (stackDefinitionFile ?args) (templateVariables ?args)
      (image' ?args) = Inr None"
    by (simp add: no_file_no_definition truthy_def example_args_def)
  have falsy: "\<not> truthy None"
    by (simp add: truthy_def)
  have auth: "post_auth ?w (username ?args) (password ?args) = Inr ''jwt''"
    by (simp add: example_world_def)
  have stacks: "get_stacks ?w = Inr [example_stack ''web'' 1 1, example_stack ''db'' 3 2]"
    by (simp add: example_world_def)
  have none: "\<forall>s \<in> set [example_stack ''web'' 1 1, example_stack ''db'' 3 2].
      \<not> (Name s = stackName ?args \<and> strict_equals (EndpointId s) (endpointId ?args))"
    by (simp add: example_stack_def example_args_def strict_equals_def)
  from deployStack_no_definition [OF gen falsy auth stacks none]
  show ?thesis
    by (simp add: example_args_def)
qed

text \<open>
  Claim C6. Once the definition is generated and the login has succeeded, the run calls
  \<open>logout\<close> exactly once, as its last call, whatever the listing, the update or the
  creation answer and also when the definition is missing; the outcome of the run is the
  outcome of the reconciliation, which \<open>logout\<close> leaves as it is, since \<open>logout\<close> never
  fails.
\<close>

theorem deployStack_logout_once:
  assumes gen: "generateNewStackDefinition w (stackDefinitionFile args) (templateVariables args)
                  (image' args) = Inr stackDefinitionToDeploy"
    and auth: "post_auth w (username args) (password args) = Inr jwt"
  shows "count_list (calls (snd (deployStack w args))) Logout = 1
         \<and> last (calls (snd (deployStack w args))) = Logout
         \<and> fst (deployStack w args) =
             fst (reconcile w args stackDefinitionToDeploy
                    \<lparr>baseURL = portainerHost args @ ''/api'',
                     Authorization = Some (''Bearer '' @ jwt),
                     calls = [Login (username args) (password args)]\<rparr>)
         \<and> (\<forall>api. fst (logout api) = Inr ())"
proof -
  define bearer where "bearer = ''Bearer '' @ jwt"
  let ?api = "\<lparr>baseURL = portainerHost args @ ''/api'', Authorization = Some bearer,
               calls = [Login (username args) (password args)]\<rparr>"
  obtain outcome api' where r: "reconcile w args stackDefinitionToDeploy ?api = (outcome, api')"
    by (cases "reconcile w args stackDefinitionToDeploy ?api")
  obtain cs where cs: "calls api' = calls ?api @ cs" "Logout \<notin> set cs"
    using reconcile_calls [of w args stackDefinitionToDeploy ?api] r by auto
  have l: "login w (username args) (password args) (new_PortainerApi (portainerHost args))
             = (Inr (), ?api)"
    by (simp add: login_def auth new_PortainerApi_def bearer_def)
  have d: "deployStack w args =
             (outcome, api'\<lparr>Authorization := Some [], calls := calls api' @ [Logout]\<rparr>)"
    by (simp add: deployStack_def gen l r logout_def Let_def)
  have "count_list cs Logout = 0"
    using cs(2) by (simp add: count_list_0_iff)
  with cs(1) have "count_list (calls api' @ [Logout]) Logout = 1"
    by simp
  with d r show ?thesis by (simp add: logout_def bearer_def)
qed

theorem deployStack_logout_once_witness:
  "count_list (calls (snd (deployStack
      (example_world [example_stack ''web'' 7 2] (Inl (AxiosError ''500'')))
      (example_args (Some ''stack.yml''))))) Logout = 1
   \<and> fst (deployStack
      (example_world [example_stack ''web'' 7 2] (Inl (AxiosError ''500'')))
      (example_args (Some ''stack.yml''))) = Inl (AxiosError ''500'')"
proof -
  let ?w = "example_world [example_stack ''web'' 7 2] (Inl (AxiosError ''500''))"
  let ?args = "example_args (Some ''stack.yml'')"
  have gen: "generateNewStackDefinition ?w (stackDefinitionFile ?args) (templateVariables ?args)
      (image' ?args) = Inr (Some ''image: myrepo/app:new'')"
    by (simp add: example_args_def example_definition)
  have auth: "post_auth ?w (username ?args) (password ?args) = Inr ''jwt''"
    by (simp add: example_world_def)
  have "fst (reconcile ?w ?args (Some ''image: myrepo/app:new'')
          \<lparr>baseURL = portainerHost ?args @ ''/api'',
           Authorization = Some (''Bearer '' @ ''jwt''),
           calls = [Login (username ?args) (password ?args)]\<rparr>) = Inl (AxiosError ''500'')"
    by (simp add: reconcile_def getStacks_def example_world_def example_stack_def
        example_args_def isTarget_def strict_equals_def updateStack_def)
  with deployStack_logout_once [OF gen auth] show ?thesis by simp
qed


section \<open>The endpoint id\<close>

text \<open>
  Claim C9, as amended. The endpoint id that \<open>run\<close> passes to the deployment is the
  integer that \<open>parseInt\<close> reads from the input when that integer is not zero, and it is 1
  when \<open>parseInt\<close> reads no integer (the input is not set, or does not begin with one) and
  also when it reads zero; so it is never \<open>NaN\<close> and never zero. (Integers stand for the
  Numbers nearest to them, as said where \<open>Number\<close> is declared.)
\<close>

theorem run_endpointId:
  assumes "run_arguments JSON_parse inputs = Inr args"
  shows "endpointId args =
           (case parseInt (input_endpoint_id inputs) of
              NaN \<Rightarrow> Integer 1
            | Integer n \<Rightarrow> if n = 0 then Integer 1 else Integer n)
         \<and> endpointId args \<noteq> NaN \<and> endpointId args \<noteq> Integer 0"
  using assms
  by (auto simp: run_arguments_def logical_or_def ToBoolean_def
      split: sum.splits Number.splits if_splits)

theorem run_endpointId_witness:
  "map_sum id endpointId (run_arguments example_JSON_parse (example_inputs ''12'')) =
     Inr (Integer 12)
   \<and> map_sum id endpointId (run_arguments example_JSON_parse (example_inputs [])) =
     Inr (Integer 1)"
proof -
  obtain a where a: "run_arguments example_JSON_parse (example_inputs ''12'') = Inr a"
    by (simp add: run_arguments_def example_inputs_def)
  obtain b where b: "run_arguments example_JSON_parse (example_inputs []) = Inr b"
    by (simp add: run_arguments_def example_inputs_def)
  have "parseInt ''12'' = Integer 12" and "parseInt [] = NaN"
    by code_simp+
  with run_endpointId [OF a] run_endpointId [OF b] a b show ?thesis
    by (simp add: example_inputs_def)
qed

theorem run_endpointId_counterexample:
  "parseInt ''0'' = Integer 0
   \<and> map_sum id endpointId (run_arguments example_JSON_parse (example_inputs ''0'')) =
     Inr (Integer 1)"
proof -
  have p: "parseInt ''0'' = Integer 0"
    by code_simp
  then show ?thesis
    by (simp add: run_arguments_def example_inputs_def logical_or_def ToBoolean_def)
qed

end
